theory Spec2Isabelle
  imports Main
begin

section \<open>Dates and timestamps: the injected dayjs instance\<close>

text \<open>
  The component receives its date library through \<open>inject(dayjsKey)\<close> and calls it \<open>dj\<close>.
  A \<open>dj\<close> value is an instant shown in local time. It is modelled by the wall-clock
  fields it shows, a calendar date of the proleptic Gregorian calendar and the
  milliseconds since local midnight, and by the offset of local time from UTC that is in
  force at that instant, in milliseconds (what \<open>utcOffset()\<close> reports, negative west of
  Greenwich). The three fields fix the instant. A string in the format \<open>YYYY-MM-DD\<close> is
  modelled by the \<open>date\<close> it denotes, a string in the format \<open>YYYYMM\<close> by the pair of year
  and month.
\<close>

record date =
  year :: int
  month :: int
  day :: int

record dj =
  dj_date :: date
  dj_ms :: int
  dj_offset :: int

text \<open>
  The time zone of the runtime, which the library consults whenever it builds a value:
  \<open>offset_at\<close> gives the offset in force at an instant (milliseconds since the epoch),
  \<open>offset_local\<close> the offset that the runtime settles on for a wall-clock time. Both are
  parameters, so daylight-saving changes are covered. A wall-clock time that the component
  asks for (midnight of a day, the last millisecond of a month) is taken to exist in the
  zone.
\<close>

record zone =
  offset_at :: "int \<Rightarrow> int"
  offset_local :: "date \<Rightarrow> int \<Rightarrow> int"

definition leap_year :: "int \<Rightarrow> bool" where
  "leap_year y = (y mod 4 = 0 \<and> (y mod 100 \<noteq> 0 \<or> y mod 400 = 0))"

definition days_in_month :: "int \<Rightarrow> int \<Rightarrow> int" where
  "days_in_month y m =
     (if m = 2 then (if leap_year y then 29 else 28)
      else if m = 4 \<or> m = 6 \<or> m = 9 \<or> m = 11 then 30 else 31)"

definition next_day :: "date \<Rightarrow> date" where
  "next_day d =
     (if day d < days_in_month (year d) (month d) then d\<lparr>day := day d + 1\<rparr>
      else if month d < 12 then \<lparr>year = year d, month = month d + 1, day = 1\<rparr>
      else \<lparr>year = year d + 1, month = 1, day = 1\<rparr>)"

definition prev_day :: "date \<Rightarrow> date" where
  "prev_day d =
     (if 1 < day d then d\<lparr>day := day d - 1\<rparr>
      else if 1 < month d
        then \<lparr>year = year d, month = month d - 1, day = days_in_month (year d) (month d - 1)\<rparr>
      else \<lparr>year = year d - 1, month = 12, day = 31\<rparr>)"

definition shift_days :: "int \<Rightarrow> date \<Rightarrow> date" where
  "shift_days n d = (if 0 \<le> n then (next_day ^^ nat n) d else (prev_day ^^ nat (- n)) d)"

text \<open>The number of days from 1970-01-01 to a date (negative before it).\<close>

definition days_from_civil :: "date \<Rightarrow> int" where
  "days_from_civil d =
     (let y = (if month d \<le> 2 then year d - 1 else year d);
          era = y div 400;
          yoe = y - era * 400;
          mp = (if 2 < month d then month d - 3 else month d + 9);
          doy = (153 * mp + 2) div 5 + day d - 1;
          doe = yoe * 365 + yoe div 4 - yoe div 100 + doy
      in era * 146097 + doe - 719468)"

text \<open>ISO weekday of a day number: 1 is Monday, 7 is Sunday; 1970-01-01 was a Thursday.\<close>

definition iso_weekday :: "int \<Rightarrow> int" where
  "iso_weekday n = (n + 3) mod 7 + 1"

text \<open>\<open>dj(s)\<close> for a string \<open>s\<close> in the format \<open>YYYY-MM-DD\<close>: that date at midnight.\<close>

definition dj_parse_date :: "zone \<Rightarrow> date \<Rightarrow> dj" where
  "dj_parse_date z d = \<lparr>dj_date = d, dj_ms = 0, dj_offset = offset_local z d 0\<rparr>"

text \<open>\<open>.format('YYYY-MM-DD')\<close> and \<open>.format('YYYYMM')\<close>.\<close>

definition format_YYYY_MM_DD :: "dj \<Rightarrow> date" where
  "format_YYYY_MM_DD t = dj_date t"

definition format_YYYYMM :: "dj \<Rightarrow> int \<times> int" where
  "format_YYYYMM t = (year (dj_date t), month (dj_date t))"

text \<open>\<open>.startOf('month')\<close> and \<open>.endOf('month')\<close>.\<close>

definition startOf_month :: "zone \<Rightarrow> dj \<Rightarrow> dj" where
  "startOf_month z t =
     (let d = (dj_date t)\<lparr>day := 1\<rparr>
      in \<lparr>dj_date = d, dj_ms = 0, dj_offset = offset_local z d 0\<rparr>)"

definition endOf_month :: "zone \<Rightarrow> dj \<Rightarrow> dj" where
  "endOf_month z t =
     (let d = (dj_date t)\<lparr>day := days_in_month (year (dj_date t)) (month (dj_date t))\<rparr>
      in \<lparr>dj_date = d, dj_ms = 86399999, dj_offset = offset_local z d 86399999\<rparr>)"

text \<open>\<open>.add(1, 'day')\<close>: the same time of day on the next calendar date.\<close>

definition add_1_day :: "zone \<Rightarrow> dj \<Rightarrow> dj" where
  "add_1_day z t =
     (let d = next_day (dj_date t)
      in \<lparr>dj_date = d, dj_ms = dj_ms t, dj_offset = offset_local z d (dj_ms t)\<rparr>)"

text \<open>
  The instant that the value wraps, in milliseconds since 1970-01-01T00:00 UTC: the
  wall-clock time less the offset.
\<close>

definition valueOf :: "dj \<Rightarrow> int" where
  "valueOf t = days_from_civil (dj_date t) * 86400000 + dj_ms t - dj_offset t"

text \<open>
  \<open>a.diff(b, 'minutes')\<close>: the difference of the two instants in minutes, with the fraction
  cut off towards zero (the library returns a whole number unless asked for a float).
\<close>

definition diff_minutes :: "dj \<Rightarrow> dj \<Rightarrow> int" where
  "diff_minutes a b =
     (let ms = valueOf a - valueOf b
      in if ms < 0 then - ((- ms) div 60000) else ms div 60000)"

text \<open>
  Adding milliseconds to an instant; the result is shown with the offset in force at the
  new instant. \<open>t.add(x, 'minutes')\<close> adds \<open>x * 60000\<close> milliseconds.
\<close>

definition add_ms :: "zone \<Rightarrow> dj \<Rightarrow> int \<Rightarrow> dj" where
  "add_ms z t delta =
     (let instant = valueOf t + delta;
          off = offset_at z instant;
          local = instant + off
      in \<lparr>dj_date = shift_days (local div 86400000) \<lparr>year = 1970, month = 1, day = 1\<rparr>,
          dj_ms = local mod 86400000,
          dj_offset = off\<rparr>)"


section \<open>The data the view holds\<close>

text \<open>
  The types \<open>Schedule\<close>, \<open>RemoteEvent\<close> and \<open>ScheduleAppointment\<close> and the enumerations come
  from \<open>@/models\<close> and \<open>@/definitions\<close>. A schedule is modelled with the fields the view
  writes in its placeholder; \<open>DateFormatStrings.QalendarFullDay\<close> is taken to be the format
  \<open>YYYY-MM-DD\<close>, and \<open>DEFAULT_SLOT_DURATION\<close> is a parameter. A remote event is modelled with the three fields the view
  touches (\<open>start\<close>, \<open>end\<close>, \<open>duration\<close>; the two timestamps already read by \<open>dj\<close>) and one
  field \<open>other\<close> that stands for every other property of the object. A field that a
  JavaScript object may lack, or that may be \<open>null\<close>, is an \<open>option\<close>.
\<close>

datatype event_location_type = InPerson | Online

datatype meeting_link_provider_type = MeetingLinkNone | Zoom | GoogleMeet

record calendar =
  cal_id :: int
  cal_title :: string
  cal_color :: string
  cal_connected :: bool

record schedule =
  active :: bool
  name :: string
  calendar_id :: int
  location_type :: event_location_type
  location_url :: string
  details :: string
  start_date :: date
  end_date :: "date option"
  start_time :: string
  end_time :: string
  earliest_booking :: int
  farthest_booking :: int
  weekdays :: "int list"
  slot_duration :: int
  meeting_link_provider :: meeting_link_provider_type
  booking_confirmation :: bool
  calendar :: calendar

record 'x remote_event =
  ev_start :: dj
  ev_end :: dj
  duration :: "int option"
  other :: 'x

text \<open>
  The calls that leave the component: \<open>refresh()\<close>, \<open>call('schedule/')\<close> and
  \<open>call(`rmt/cal/${calendar.id}/${from}/${inclusiveTo}`)\<close>; the last one is kept as its
  three path parameters.
\<close>

datatype request = Refresh | ScheduleList | RemoteEvents int date date

text \<open>
  What an awaited call settles with. For a \<open>call\<close> the payload is \<open>data.value\<close>:
  \<open>EventData None\<close> is a value that is not an array (as after a failed request, where it
  is \<open>null\<close>), \<open>ScheduleData None\<close> is \<open>null\<close>. \<open>Rejected\<close> is a promise that rejects.
\<close>

datatype 'x response =
    RefreshDone
  | ScheduleData "schedule list option"
  | EventData "'x remote_event list option"
  | Rejected

text \<open>
  The refs that the script writes, the store value \<open>connectedCalendars\<close> it reads, and two
  fields that make the effects explicit: \<open>issued\<close> lists every call made so far, oldest
  first; \<open>inflight\<close> lists the calls that are still awaited, each with a flag saying that
  the \<open>onMounted\<close> handler continues after it.
\<close>

record ('x, 'p) state =
  activeDate :: dj
  activeDateRange :: "dj \<times> dj"
  calendarEvents :: "'x remote_event list"
  schedules :: "schedule list option"
  schedulesReady :: bool
  schedulesPreviews :: "'p list"
  connectedCalendars :: "calendar list"
  issued :: "request list"
  inflight :: "(request \<times> bool) list"

text \<open>
  What the component reads from outside and never changes: the route, a constant of
  \<open>@/definitions\<close>, and the time zone in which the injected \<open>dj\<close> works.
\<close>

record env =
  route_name :: string
  DEFAULT_SLOT_DURATION :: int
  time_zone :: zone


section \<open>The script of ScheduleView.vue\<close>

text \<open>
  The refs as the script creates them. \<open>route_date\<close> is \<open>route.params.date\<close> read by \<open>dj\<close>
  when it is present, \<open>now\<close> is \<open>dj()\<close>.
\<close>

definition init_state ::
  "env \<Rightarrow> dj option \<Rightarrow> dj \<Rightarrow> calendar list \<Rightarrow> ('x, 'p) state" where
  "init_state e route_date now cals =
     (let ad = (case route_date of Some d \<Rightarrow> d | None \<Rightarrow> now)
      in \<lparr>activeDate = ad,
          activeDateRange = (startOf_month (time_zone e) ad, endOf_month (time_zone e) ad),
          calendarEvents = [],
          schedules = Some [],
          schedulesReady = False,
          schedulesPreviews = [],
          connectedCalendars = cals,
          issued = [],
          inflight = []\<rparr>)"

text \<open>
  \<open>getRemoteEvents\<close> up to its \<open>await\<close>: the list is emptied, then the callback of \<open>map\<close>
  runs for each connected calendar up to its own \<open>await\<close>, which issues the call.
\<close>

definition getRemoteEvents ::
  "env \<Rightarrow> date \<Rightarrow> date \<Rightarrow> ('x, 'p) state \<Rightarrow> ('x, 'p) state" where
  "getRemoteEvents e from to s =
     (let inclusiveTo =
            format_YYYY_MM_DD (add_1_day (time_zone e) (dj_parse_date (time_zone e) to));
          reqs = map (\<lambda>c. RemoteEvents (cal_id c) from inclusiveTo) (connectedCalendars s)
      in s\<lparr>calendarEvents := [],
           issued := issued s @ reqs,
           inflight := inflight s @ map (\<lambda>r. (r, False)) reqs\<rparr>)"

text \<open>The object that \<open>getRemoteEvents\<close> builds from an event: \<open>{...event, duration: ...}\<close>.\<close>

definition with_duration :: "'x remote_event \<Rightarrow> 'x remote_event" where
  "with_duration event = event\<lparr>duration := Some (diff_minutes (ev_end event) (ev_start event))\<rparr>"

text \<open>The rest of the callback, run when the call of one calendar has settled with \<open>data\<close>.\<close>

definition remote_events_received ::
  "'x remote_event list option \<Rightarrow> ('x, 'p) state \<Rightarrow> ('x, 'p) state" where
  "remote_events_received data s =
     (case data of
        Some evs \<Rightarrow> s\<lparr>calendarEvents := calendarEvents s @ map with_duration evs\<rparr>
      | None \<Rightarrow> s)"

definition firstSchedule :: "('x, 'p) state \<Rightarrow> schedule option" where
  "firstSchedule s =
     (case schedules s of
        None \<Rightarrow> None
      | Some xs \<Rightarrow> (if 0 < length xs then Some (xs ! 0) else None))"

text \<open>\<open>getFirstSchedule\<close> up to its \<open>await\<close>; the flag says whether \<open>onMounted\<close> called it.\<close>

definition getFirstSchedule :: "bool \<Rightarrow> ('x, 'p) state \<Rightarrow> ('x, 'p) state" where
  "getFirstSchedule mounting s =
     s\<lparr>issued := issued s @ [ScheduleList], inflight := inflight s @ [(ScheduleList, mounting)]\<rparr>"

definition schedulePreview :: "'p option \<Rightarrow> ('x, 'p) state \<Rightarrow> ('x, 'p) state" where
  "schedulePreview sched s =
     s\<lparr>schedulesPreviews := (case sched of Some x \<Rightarrow> [x] | None \<Rightarrow> [])\<rparr>"

text \<open>\<open>onDateChange\<close>; the argument is \<open>dateObj.start\<close> and \<open>dateObj.end\<close> read by \<open>dj\<close>.\<close>

definition onDateChange ::
  "env \<Rightarrow> dj \<Rightarrow> dj \<Rightarrow> ('x, 'p) state \<Rightarrow> ('x, 'p) state" where
  "onDateChange e start end' s =
     (let s1 = s\<lparr>activeDate :=
                  add_ms (time_zone e) start (diff_minutes end' start * 60000 div 2)\<rparr>
      in if format_YYYYMM (snd (activeDateRange s1)) \<noteq> format_YYYYMM end'
            \<or> format_YYYYMM (fst (activeDateRange s1)) \<noteq> format_YYYYMM start
         then getRemoteEvents e (format_YYYY_MM_DD start) (format_YYYY_MM_DD end') s1
         else s1)"

text \<open>The placeholder schedule of the first-time-use route; \<open>now\<close> is \<open>dj()\<close>.\<close>

definition placeholder_schedule :: "env \<Rightarrow> dj \<Rightarrow> schedule" where
  "placeholder_schedule e now =
     \<lparr>active = False,
      name = '''',
      calendar_id = 0,
      location_type = InPerson,
      location_url = '''',
      details = '''',
      start_date = format_YYYY_MM_DD now,
      end_date = None,
      start_time = ''09:00'',
      end_time = ''17:00'',
      earliest_booking = 1440,
      farthest_booking = 20160,
      weekdays = [1, 2, 3, 4, 5],
      slot_duration = DEFAULT_SLOT_DURATION e,
      meeting_link_provider = MeetingLinkNone,
      booking_confirmation = True,
      calendar = \<lparr>cal_id = 0, cal_title = '''', cal_color = ''#000'', cal_connected = True\<rparr>\<rparr>"

text \<open>
  The \<open>onMounted\<close> handler, cut at its \<open>await\<close>s: \<open>onMounted\<close> runs up to
  \<open>await refresh()\<close>, \<open>mounted_refreshed\<close> from there up to the \<open>await\<close> inside
  \<open>getFirstSchedule\<close>, and \<open>schedules_received\<close> is the rest of \<open>getFirstSchedule\<close>,
  followed, when \<open>onMounted\<close> is the caller, by the rest of the handler.
\<close>

definition onMounted :: "env \<Rightarrow> dj \<Rightarrow> ('x, 'p) state \<Rightarrow> ('x, 'p) state" where
  "onMounted e now s =
     (if route_name e = ''setup''
      then s\<lparr>schedules := Some [placeholder_schedule e now], schedulesReady := True\<rparr>
      else s\<lparr>issued := issued s @ [Refresh], inflight := inflight s @ [(Refresh, True)]\<rparr>)"

definition mounted_refreshed :: "('x, 'p) state \<Rightarrow> ('x, 'p) state" where
  "mounted_refreshed s = getFirstSchedule True s"

definition mounted_rest :: "env \<Rightarrow> ('x, 'p) state \<Rightarrow> ('x, 'p) state" where
  "mounted_rest e s =
     (let s1 = s\<lparr>schedulesReady := True\<rparr>;
          eventsFrom = format_YYYY_MM_DD (startOf_month (time_zone e) (activeDate s1));
          eventsTo = format_YYYY_MM_DD (endOf_month (time_zone e) (activeDate s1))
      in getRemoteEvents e eventsFrom eventsTo s1)"

definition schedules_received ::
  "env \<Rightarrow> schedule list option \<Rightarrow> bool \<Rightarrow> ('x, 'p) state \<Rightarrow> ('x, 'p) state" where
  "schedules_received e data mounting s =
     (let s1 = s\<lparr>schedules := data\<rparr> in if mounting then mounted_rest e s1 else s1)"


section \<open>The component as a transition system\<close>

text \<open>
  JavaScript runs one handler or one continuation at a time, so the component moves in
  steps: a handler called by the framework or by a child component, a change of the
  calendar store, or the settling of the call at position \<open>k\<close> of \<open>inflight\<close>. A
  rejected call drops its continuation. A response of the wrong kind for the call is no
  transition.
\<close>

datatype ('x, 'p) action =
    Mounted dj
  | DateChange dj dj
  | Created
  | Updated "'p option"
  | CalendarsChanged "calendar list"
  | Settled nat "'x response"

definition settle ::
  "env \<Rightarrow> nat \<Rightarrow> 'x response \<Rightarrow> ('x, 'p) state \<Rightarrow> ('x, 'p) state" where
  "settle e k r s =
     (if k < length (inflight s)
      then (let s1 = s\<lparr>inflight := take k (inflight s) @ drop (Suc k) (inflight s)\<rparr>
            in case (fst (inflight s ! k), r) of
                 (_, Rejected) \<Rightarrow> s1
               | (Refresh, RefreshDone) \<Rightarrow> mounted_refreshed s1
               | (ScheduleList, ScheduleData data) \<Rightarrow>
                   schedules_received e data (snd (inflight s ! k)) s1
               | (RemoteEvents c f t, EventData data) \<Rightarrow> remote_events_received data s1
               | _ \<Rightarrow> s)
      else s)"

fun step :: "env \<Rightarrow> ('x, 'p) action \<Rightarrow> ('x, 'p) state \<Rightarrow> ('x, 'p) state" where
  "step e (Mounted now) s = onMounted e now s"
| "step e (DateChange start end') s = onDateChange e start end' s"
| "step e Created s = getFirstSchedule False s"
| "step e (Updated sched) s = schedulePreview sched s"
| "step e (CalendarsChanged cals) s = s\<lparr>connectedCalendars := cals\<rparr>"
| "step e (Settled k r) s = settle e k r s"

definition run :: "env \<Rightarrow> ('x, 'p) action list \<Rightarrow> ('x, 'p) state \<Rightarrow> ('x, 'p) state" where
  "run e acts s = foldl (\<lambda>s' a. step e a s') s acts"


section \<open>The availability engine of the specification\<close>

text \<open>
  The specification describes an engine (\<open>Interval\<close>, \<open>BookingWindowPolicy\<close>,
  \<open>SlotGenerator\<close>) that the view does not contain. The definitions of this section follow
  the specification's sentences. Timestamps of the engine are whole minutes since
  1970-01-01T00:00, a calendar day is its day number, and the weekday numbers of a schedule
  are ISO weekdays (1 is Monday, 7 is Sunday).
\<close>

text \<open>
  Modelled from the spec: \<open>Interval\<close>, which is not in the sources: a half-open range
  from \<open>start\<close> to \<open>end\<close>.
\<close>

record Interval =
  istart :: int
  iend :: int

text \<open>
  Modelled from the spec: \<open>Interval.overlaps\<close>, which is not in the sources.
  Half-open semantics: touching endpoints do not overlap.
\<close>

definition overlaps :: "Interval \<Rightarrow> Interval \<Rightarrow> bool" where
  "overlaps a b = (istart a < iend b \<and> istart b < iend a)"

text \<open>
  Modelled from the spec: the second phase of \<open>Interval.merge\<close>, which is not in the
  sources: "coalesces overlapping/adjacent intervals into maximal runs". The argument is
  sorted by start; an interval that starts no later than the end of the run before it joins
  that run.
\<close>

fun coalesce :: "Interval list \<Rightarrow> Interval list" where
  "coalesce [] = []"
| "coalesce [a] = [a]"
| "coalesce (a # b # rest) =
     (if istart b \<le> iend a
      then coalesce (a\<lparr>iend := max (iend a) (iend b)\<rparr> # rest)
      else a # coalesce (b # rest))"

text \<open>
  Modelled from the spec: \<open>Interval.merge\<close>, which is not in the sources: "sorts by start
  if not already sorted, then coalesces overlapping/adjacent intervals into maximal runs".
  The sort is the stable insertion sort of the library.
\<close>

definition merge :: "Interval list \<Rightarrow> Interval list" where
  "merge xs = coalesce (sort_key istart xs)"

text \<open>
  Modelled from the spec: the reading of \<open>start_time\<close> and \<open>end_time\<close> ("daily window,
  local wall-clock") and of \<open>start_date\<close> and \<open>end_date\<close> by the engine, which is not in
  the sources: the value of a decimal digit, the minutes after midnight of a string
  \<open>HH:MM\<close>, and the minute at which a date begins.
\<close>

definition digit_value :: "char \<Rightarrow> int" where
  "digit_value c = int (of_char c) - 48"

definition clock_minutes :: "string \<Rightarrow> int" where
  "clock_minutes s =
     (case s of
        [h1, h2, c, m1, m2] \<Rightarrow>
          60 * (10 * digit_value h1 + digit_value h2) + 10 * digit_value m1 + digit_value m2
      | _ \<Rightarrow> 0)"

definition date_minutes :: "date \<Rightarrow> int" where
  "date_minutes d = days_from_civil d * 1440"

text \<open>
  Modelled from the spec: \<open>BookingWindowPolicy.allowedRange\<close>, which is not in the sources:
  "[now + earliest_booking minutes, now + farthest_booking minutes), further clipped to
  [schedule.start_date, schedule.end_date or +infinity). Returns an empty interval
  (start == end) if the clipped window is empty or inverted". The empty interval sits at
  the clipped lower bound.
\<close>

definition allowedRange :: "schedule \<Rightarrow> int \<Rightarrow> Interval" where
  "allowedRange sch now =
     (let lo = max (now + earliest_booking sch) (date_minutes (start_date sch));
          hi = (case end_date sch of
                  None \<Rightarrow> now + farthest_booking sch
                | Some e \<Rightarrow> min (now + farthest_booking sch) (date_minutes e))
      in if lo < hi then \<lparr>istart = lo, iend = hi\<rparr> else \<lparr>istart = lo, iend = lo\<rparr>)"

text \<open>
  Modelled from the spec: \<open>Slot\<close>, which is not in the sources: start, end
  (= start + slot_duration), and the booking metadata of the schedule it comes from.
\<close>

record Slot =
  slot_start :: int
  slot_end :: int
  slot_confirmation :: bool
  slot_location_type :: event_location_type
  slot_location_url :: string

definition make_slot :: "schedule \<Rightarrow> int \<Rightarrow> int \<Rightarrow> Slot" where
  "make_slot sch dayno t =
     \<lparr>slot_start = dayno * 1440 + t,
      slot_end = dayno * 1440 + t + slot_duration sch,
      slot_confirmation = booking_confirmation sch,
      slot_location_type = location_type sch,
      slot_location_url = location_url sch\<rparr>"

text \<open>
  Modelled from the spec: the inner loop of \<open>SlotGenerator.generate\<close>, which is not in the
  sources: "starting at schedule.start_time, emit consecutive slots of length slot_duration
  until the next slot's end would exceed schedule.end_time for that day". The loop relies
  on the invariant \<open>slot_duration > 0\<close> of a schedule; without it no slot is emitted.
\<close>

function day_slots :: "schedule \<Rightarrow> int \<Rightarrow> int \<Rightarrow> Slot list" where
  "day_slots sch dayno t =
     (if 0 < slot_duration sch \<and> t + slot_duration sch \<le> clock_minutes (end_time sch)
      then make_slot sch dayno t # day_slots sch dayno (t + slot_duration sch)
      else [])"
  by pat_completeness auto
termination
  by (relation "measure (\<lambda>(sch, dayno, t). nat (clock_minutes (end_time sch) - t))") auto

declare day_slots.simps [simp del]

text \<open>
  Modelled from the spec: \<open>SlotGenerator.generate\<close>, which is not in the sources: "iterate
  calendar days in [from, to); skip a day unless its weekday is in schedule.weekdays".
\<close>

definition generate :: "schedule \<Rightarrow> int \<Rightarrow> int \<Rightarrow> Slot list" where
  "generate sch from to =
     concat (map (\<lambda>dayno. if iso_weekday dayno \<in> set (weekdays sch)
                          then day_slots sch dayno (clock_minutes (start_time sch))
                          else [])
                 [from..to - 1])"

text \<open>
  Modelled from the spec: the step of \<open>AvailabilityComputer\<close>, which is not in the sources,
  that "clips the candidate grid to the booking window": a slot stays when it lies in the
  window.
\<close>

definition clip_to_window :: "Interval \<Rightarrow> Slot list \<Rightarrow> Slot list" where
  "clip_to_window w slots =
     filter (\<lambda>sl. istart w \<le> slot_start sl \<and> slot_end sl \<le> iend w) slots"

section \<open>Notions used to state the properties\<close>

text \<open>A date that exists in the calendar.\<close>

definition valid_date :: "date \<Rightarrow> bool" where
  "valid_date d =
     (1 \<le> month d \<and> month d \<le> 12 \<and> 1 \<le> day d \<and> day d \<le> days_in_month (year d) (month d))"

text \<open>The part of \<open>days_from_civil\<close> that depends on the shifted year only.\<close>

definition year_days :: "int \<Rightarrow> int" where
  "year_days y =
     (y div 400) * 146097
     + ((y - (y div 400) * 400) * 365
        + (y - (y div 400) * 400) div 4 - (y - (y div 400) * 400) div 100)"

text \<open>An event whose \<open>duration\<close> is the whole minutes between its start and its end.\<close>

definition has_duration :: "'x remote_event \<Rightarrow> bool" where
  "has_duration ev = (duration ev = Some (diff_minutes (ev_end ev) (ev_start ev)))"

text \<open>Concrete values for the examples.\<close>

text \<open>
  A zone with a daylight-saving change, as in New York in 2024: five hours behind UTC,
  four hours from 2024-03-10T07:00Z to 2024-11-03T06:00Z.
\<close>

definition ex_summer :: "date \<Rightarrow> int \<Rightarrow> bool" where
  "ex_summer d ms =
     ((3 < month d \<or> month d = 3 \<and> (10 < day d \<or> day d = 10 \<and> 10800000 \<le> ms))
      \<and> (month d < 11 \<or> month d = 11 \<and> (day d < 3 \<or> day d = 3 \<and> ms < 7200000)))"

definition ex_zone :: zone where
  "ex_zone =
     \<lparr>offset_at = (\<lambda>t. if 1710054000000 \<le> t \<and> t < 1730613600000
                         then - 14400000 else - 18000000),
      offset_local = (\<lambda>d ms. if ex_summer d ms then - 14400000 else - 18000000)\<rparr>"

definition ex_env :: env where
  "ex_env = \<lparr>route_name = ''schedule'', DEFAULT_SLOT_DURATION = 30, time_zone = ex_zone\<rparr>"

definition ex_setup_env :: env where
  "ex_setup_env = \<lparr>route_name = ''setup'', DEFAULT_SLOT_DURATION = 30, time_zone = ex_zone\<rparr>"

definition ex_day :: "int \<Rightarrow> int \<Rightarrow> int \<Rightarrow> date" where
  "ex_day y m d = \<lparr>year = y, month = m, day = d\<rparr>"

definition ex_now :: dj where
  "ex_now = \<lparr>dj_date = ex_day 2024 1 15, dj_ms = 36000000, dj_offset = - 18000000\<rparr>"

definition ex_calendar :: "int \<Rightarrow> calendar" where
  "ex_calendar n = \<lparr>cal_id = n, cal_title = ''work'', cal_color = ''#000'', cal_connected = True\<rparr>"

definition ex_state3 :: "(unit, unit) state" where
  "ex_state3 = init_state ex_env None ex_now [ex_calendar 1, ex_calendar 2, ex_calendar 3]"

definition ex_state1 :: "(unit, unit) state" where
  "ex_state1 = init_state ex_env None ex_now [ex_calendar 1]"

definition ex_event :: "int \<Rightarrow> unit remote_event" where
  "ex_event n =
     \<lparr>ev_start = \<lparr>dj_date = ex_day 2024 2 n, dj_ms = 32400000, dj_offset = - 18000000\<rparr>,
      ev_end = \<lparr>dj_date = ex_day 2024 2 n, dj_ms = 37800000, dj_offset = - 18000000\<rparr>,
      duration = None,
      other = ()\<rparr>"

text \<open>
  An event across the change to summer time: from 01:00 (five hours behind UTC) to 04:00
  (four hours behind UTC) on 2024-03-10, which is two hours.
\<close>

definition ex_dst_event :: "unit remote_event" where
  "ex_dst_event =
     \<lparr>ev_start = \<lparr>dj_date = ex_day 2024 3 10, dj_ms = 3600000, dj_offset = - 18000000\<rparr>,
      ev_end = \<lparr>dj_date = ex_day 2024 3 10, dj_ms = 14400000, dj_offset = - 14400000\<rparr>,
      duration = None,
      other = ()\<rparr>"

definition ex_month_start :: "int \<Rightarrow> dj" where
  "ex_month_start m =
     \<lparr>dj_date = ex_day 2024 m 1, dj_ms = 0,
      dj_offset = offset_local ex_zone (ex_day 2024 m 1) 0\<rparr>"

definition ex_month_end :: "int \<Rightarrow> dj" where
  "ex_month_end m =
     \<lparr>dj_date = ex_day 2024 m (days_in_month 2024 m), dj_ms = 86399999,
      dj_offset = offset_local ex_zone (ex_day 2024 m (days_in_month 2024 m)) 86399999\<rparr>"

definition ex_work_schedule :: schedule where
  "ex_work_schedule = (placeholder_schedule ex_env ex_now)\<lparr>active := True, slot_duration := 60\<rparr>"


section \<open>Calendar arithmetic\<close>

lemma year_days_closed_form: "year_days y = 365 * y + y div 4 - y div 100 + y div 400"
proof -
  define q where "q = y div 400"
  define r where "r = y mod 400"
  have y: "y = 400 * q + r"
    by (simp add: q_def r_def)
  have a: "y - q * 400 = r" using y by simp
  have b: "y div 4 = 100 * q + r div 4" using y by simp
  have c: "y div 100 = 4 * q + r div 100" using y by simp
  show ?thesis
    unfolding year_days_def q_def[symmetric] a b c using y by linarith
qed

lemma div_pred:
  fixes y n :: int
  assumes "0 < n"
  shows "y div n = (y - 1) div n + (if y mod n = 0 then 1 else 0)"
proof -
  define q where "q = y div n"
  define r where "r = y mod n"
  have y: "y = n * q + r" and r: "0 \<le> r" "r < n"
    using assms by (simp_all add: q_def r_def)
  show ?thesis
  proof (cases "r = 0")
    case True
    have "y - 1 = n * (q - 1) + (n - 1)" using y True by (simp add: algebra_simps)
    then have "(y - 1) div n = q - 1"
      using assms by (intro int_div_pos_eq[where r = "n - 1"]) auto
    then show ?thesis using True by (simp add: q_def[symmetric] r_def[symmetric])
  next
    case False
    have "y - 1 = n * q + (r - 1)" using y by simp
    then have "(y - 1) div n = q"
      using r False by (intro int_div_pos_eq[where r = "r - 1"]) auto
    then show ?thesis using False by (simp add: q_def[symmetric] r_def[symmetric])
  qed
qed

lemma century_multiples:
  fixes y :: int
  shows "y mod 400 = 0 \<Longrightarrow> y mod 100 = 0" and "y mod 100 = 0 \<Longrightarrow> y mod 4 = 0"
proof -
  have a: "(100::int) dvd 400" and b: "(4::int) dvd 100" by simp_all
  show "y mod 400 = 0 \<Longrightarrow> y mod 100 = 0"
    using dvd_trans[OF a, of y] by (simp add: mod_eq_0_iff_dvd)
  show "y mod 100 = 0 \<Longrightarrow> y mod 4 = 0"
    using dvd_trans[OF b, of y] by (simp add: mod_eq_0_iff_dvd)
qed

lemma year_days_pred:
  "year_days y = year_days (y - 1) + (if leap_year y then 366 else 365)"
proof -
  have d4: "y div 4 = (y - 1) div 4 + (if y mod 4 = 0 then 1 else 0)"
    by (rule div_pred) simp
  have d100: "y div 100 = (y - 1) div 100 + (if y mod 100 = 0 then 1 else 0)"
    by (rule div_pred) simp
  have d400: "y div 400 = (y - 1) div 400 + (if y mod 400 = 0 then 1 else 0)"
    by (rule div_pred) simp
  consider "y mod 400 = 0" | "y mod 400 \<noteq> 0" "y mod 100 = 0"
    | "y mod 100 \<noteq> 0" "y mod 4 = 0" | "y mod 4 \<noteq> 0"
    by blast
  then show ?thesis
  proof cases
    case 1
    then have "y mod 100 = 0" "y mod 4 = 0" using century_multiples[of y] by auto
    with 1 show ?thesis
      unfolding year_days_closed_form leap_year_def d4 d100 d400 by simp
  next
    case 2
    then have "y mod 4 = 0" using century_multiples[of y] by auto
    with 2 show ?thesis
      unfolding year_days_closed_form leap_year_def d4 d100 d400 by simp
  next
    case 3
    then have "y mod 400 \<noteq> 0" using century_multiples[of y] by auto
    with 3 show ?thesis
      unfolding year_days_closed_form leap_year_def d4 d100 d400 by simp
  next
    case 4
    then have "y mod 400 \<noteq> 0" "y mod 100 \<noteq> 0" using century_multiples[of y] by auto
    with 4 show ?thesis
      unfolding year_days_closed_form leap_year_def d4 d100 d400 by simp
  qed
qed

lemma days_from_civil_by_year:
  "days_from_civil d =
     year_days (if month d \<le> 2 then year d - 1 else year d)
     + (153 * (if 2 < month d then month d - 3 else month d + 9) + 2) div 5 + day d - 1 - 719468"
  by (simp add: days_from_civil_def year_days_def Let_def)

lemma month_cases:
  fixes m :: int
  assumes "1 \<le> m" "m \<le> 12"
  shows "m = 1 \<or> m = 2 \<or> m = 3 \<or> m = 4 \<or> m = 5 \<or> m = 6 \<or> m = 7 \<or> m = 8 \<or> m = 9
         \<or> m = 10 \<or> m = 11 \<or> m = 12"
  using assms by presburger

text \<open>On a date of the calendar, \<open>next_day\<close> is the date whose day number is one more.\<close>

lemma next_day_one_later:
  assumes "valid_date d"
  shows "days_from_civil (next_day d) = days_from_civil d + 1"
proof -
  have m: "1 \<le> month d" "month d \<le> 12"
    and dd: "1 \<le> day d" "day d \<le> days_in_month (year d) (month d)"
    using assms by (simp_all add: valid_date_def)
  have other: "days_from_civil (next_day d) = days_from_civil d + 1"
    if "month d = m" "m \<noteq> 2" "m \<in> {1, 3, 4, 5, 6, 7, 8, 9, 10, 11, 12}" for m
    using that dd
    by (auto simp: days_from_civil_by_year next_day_def days_in_month_def)
  have feb: "days_from_civil (next_day d) = days_from_civil d + 1" if "month d = 2"
    using that dd year_days_pred[of "year d"]
    by (auto simp: days_from_civil_by_year next_day_def days_in_month_def split: if_splits)
  show ?thesis
    using month_cases[OF m] other feb by auto
qed


section \<open>What each handler does to the refs and to the calls\<close>

lemma getRemoteEvents_fields:
  "activeDateRange (getRemoteEvents e from to s) = activeDateRange s"
  "calendarEvents (getRemoteEvents e from to s) = []"
  "issued (getRemoteEvents e from to s) =
     issued s @ map (\<lambda>c. RemoteEvents (cal_id c) from (next_day to)) (connectedCalendars s)"
  "inflight (getRemoteEvents e from to s) =
     inflight s
     @ map (\<lambda>c. (RemoteEvents (cal_id c) from (next_day to), False)) (connectedCalendars s)"
  by (simp_all add: getRemoteEvents_def Let_def format_YYYY_MM_DD_def add_1_day_def
      dj_parse_date_def comp_def)

lemma remote_events_received_fields:
  "activeDateRange (remote_events_received data s) = activeDateRange s"
  "calendarEvents (remote_events_received data s) =
     calendarEvents s @ (case data of Some evs \<Rightarrow> map with_duration evs | None \<Rightarrow> [])"
  "inflight (remote_events_received data s) = inflight s"
  "issued (remote_events_received data s) = issued s"
  by (simp_all add: remote_events_received_def split: option.splits)

lemma schedules_received_range:
  "activeDateRange (schedules_received e data m s) = activeDateRange s"
  by (simp add: schedules_received_def mounted_rest_def Let_def getRemoteEvents_fields)

lemma schedules_received_events:
  "set (calendarEvents (schedules_received e data m s)) \<subseteq> set (calendarEvents s)"
  by (simp add: schedules_received_def mounted_rest_def Let_def getRemoteEvents_fields)

lemma settle_range: "activeDateRange (settle e k r s) = activeDateRange s"
  by (simp add: settle_def Let_def mounted_refreshed_def getFirstSchedule_def
      schedules_received_range remote_events_received_fields
      split: request.splits response.splits)

lemma step_range: "activeDateRange (step e a s) = activeDateRange s"
  by (cases a)
     (simp_all add: onMounted_def onDateChange_def Let_def getRemoteEvents_fields
        getFirstSchedule_def schedulePreview_def settle_range)

lemma run_range: "activeDateRange (run e acts s) = activeDateRange s"
  unfolding run_def by (induction acts arbitrary: s) (simp_all add: step_range)

lemma with_duration_has: "has_duration (with_duration ev)"
  by (simp add: has_duration_def with_duration_def)

lemma schedules_received_inv:
  "list_all has_duration (calendarEvents s) \<Longrightarrow>
   list_all has_duration (calendarEvents (schedules_received e data m s))"
  using schedules_received_events[of e data m s] by (auto simp: list_all_iff)

lemma settle_events:
  assumes "list_all has_duration (calendarEvents s)"
  shows "list_all has_duration (calendarEvents (settle e k r s))"
proof (cases "k < length (inflight s)")
  case False
  then show ?thesis using assms by (simp add: settle_def)
next
  case True
  define s1 where "s1 = s\<lparr>inflight := take k (inflight s) @ drop (Suc k) (inflight s)\<rparr>"
  have s1: "list_all has_duration (calendarEvents s1)"
    using assms by (simp add: s1_def)
  have a: "list_all has_duration (calendarEvents (mounted_refreshed s1))"
    using s1 by (simp add: mounted_refreshed_def getFirstSchedule_def)
  have b: "list_all has_duration (calendarEvents (schedules_received e data m s1))" for data m
    using s1 by (rule schedules_received_inv)
  have c: "list_all has_duration (calendarEvents (remote_events_received data s1))" for data
    using s1
    by (cases data) (auto simp: remote_events_received_fields with_duration_has list_all_iff)
  show ?thesis
    using True assms s1 a b c
    by (simp add: settle_def Let_def s1_def[symmetric] split: request.splits response.splits)
qed

lemma step_events:
  "list_all has_duration (calendarEvents s) \<Longrightarrow>
   list_all has_duration (calendarEvents (step e a s))"
  by (cases a)
     (simp_all add: onMounted_def onDateChange_def Let_def getRemoteEvents_fields
        getFirstSchedule_def schedulePreview_def settle_events)

lemma run_events:
  "list_all has_duration (calendarEvents s) \<Longrightarrow>
   list_all has_duration (calendarEvents (run e acts s))"
  unfolding run_def by (induction acts arbitrary: s) (simp_all add: step_events)

lemma settle_remote:
  assumes "k < length (inflight s)" "fst (inflight s ! k) = RemoteEvents c f t"
  shows "settle e k (EventData data) s =
           remote_events_received data
             (s\<lparr>inflight := take k (inflight s) @ drop (Suc k) (inflight s)\<rparr>)"
    and "settle e k Rejected s = s\<lparr>inflight := take k (inflight s) @ drop (Suc k) (inflight s)\<rparr>"
  using assms by (simp_all add: settle_def Let_def)


section \<open>Merging intervals\<close>

lemma coalesce_starts: "istart ` set (coalesce xs) \<subseteq> istart ` set xs"
  by (induction xs rule: coalesce.induct) auto

lemma coalesce_separated:
  "sorted (map istart xs) \<Longrightarrow>
   sorted_wrt (\<lambda>a b. istart a \<le> istart b \<and> iend a < istart b) (coalesce xs)"
proof (induction xs rule: coalesce.induct)
  case 1
  then show ?case by simp
next
  case (2 a)
  then show ?case by simp
next
  case (3 a b rest)
  show ?case
  proof (cases "istart b \<le> iend a")
    case True
    with 3 show ?thesis by simp
  next
    case False
    have "istart b \<le> istart c" if "c \<in> set (coalesce (b # rest))" for c
    proof -
      from that coalesce_starts[of "b # rest"]
      have "istart c \<in> istart ` set (b # rest)" by blast
      with "3.prems" show ?thesis by auto
    qed
    moreover have "istart a \<le> istart b" using "3.prems" by simp
    ultimately show ?thesis using False 3 by fastforce
  qed
qed

lemma coalesce_fixed:
  "sorted_wrt (\<lambda>a b. istart a \<le> istart b \<and> iend a < istart b) ys \<Longrightarrow> coalesce ys = ys"
  by (induction ys rule: coalesce.induct) auto

lemma separated_sorted:
  "sorted_wrt (\<lambda>a b. istart a \<le> istart b \<and> iend a < istart b) ys \<Longrightarrow>
   sorted (map istart ys)"
  by (induction ys) auto

lemma merge_separated:
  "sorted_wrt (\<lambda>a b. istart a \<le> istart b \<and> iend a < istart b) (merge xs)"
  unfolding merge_def by (rule coalesce_separated) simp


section \<open>Generating slots\<close>

lemma day_slots_work_day:
  assumes "end_time sch = ''17:00''" "slot_duration sch = 60"
  shows "day_slots sch d 540 = map (make_slot sch d) [540, 600, 660, 720, 780, 840, 900, 960]"
  using assms by (simp add: day_slots.simps[of sch d] clock_minutes_def digit_value_def)

lemma upto_week: "[n..n + 7 - 1] = [n, n + 1, n + 2, n + 3, n + 4, n + 5, n + 6]"
  by (simp add: upto.simps)

lemma weekday_shift: "iso_weekday (n + i) = ((n + 3) mod 7 + i) mod 7 + 1"
proof -
  have "(n + i + 3) mod 7 = ((n + 3) + i) mod 7" by (simp add: algebra_simps)
  also have "\<dots> = ((n + 3) mod 7 + i) mod 7" by (simp add: mod_add_left_eq)
  finally show ?thesis by (simp add: iso_weekday_def)
qed

lemma residue_cases:
  fixes r :: int
  assumes "0 \<le> r" "r < 7"
  shows "r = 0 \<or> r = 1 \<or> r = 2 \<or> r = 3 \<or> r = 4 \<or> r = 5 \<or> r = 6"
  using assms by presburger

lemma generate_week_length:
  assumes "set (weekdays sch) = {1, 2, 3, 4, 5}" "start_time sch = ''09:00''"
    "end_time sch = ''17:00''" "slot_duration sch = 60"
  shows "length (generate sch n (n + 7)) = 40"
proof -
  define r where "r = (n + 3) mod 7"
  have start: "clock_minutes (start_time sch) = 540"
    using assms(2) by (simp add: clock_minutes_def digit_value_def)
  have w0: "iso_weekday n = r mod 7 + 1"
    using weekday_shift[of n 0] by (simp add: r_def)
  have w: "iso_weekday (n + i) = (r + i) mod 7 + 1" for i
    by (simp add: weekday_shift r_def)
  have r: "r = 0 \<or> r = 1 \<or> r = 2 \<or> r = 3 \<or> r = 4 \<or> r = 5 \<or> r = 6"
    by (rule residue_cases) (simp_all add: r_def)
  have len: "length (if P then day_slots sch d 540 else []) = (if P then 8 else 0)" for P d
    by (simp add: day_slots_work_day[OF assms(3,4)])
  have "length (generate sch n (n + 7)) =
      (\<Sum>d\<leftarrow>[n, n + 1, n + 2, n + 3, n + 4, n + 5, n + 6].
          if iso_weekday d \<in> {1, 2, 3, 4, 5} then 8 else 0)"
    unfolding generate_def upto_week start assms(1) length_concat
    by (simp only: list.map len comp_def)
  also have "\<dots> = (\<Sum>i\<leftarrow>[0, 1, 2, 3, 4, 5, 6].
          if (r + i) mod 7 + 1 \<in> {1, 2, 3, 4, 5} then 8 else 0)"
    by (simp add: w w0)
  also have "\<dots> = 40"
    using r by (elim disjE) simp_all
  finally show ?thesis .
qed

lemma generate_weekday:
  assumes "set (weekdays sch) = {1, 2, 3, 4, 5}" "start_time sch = ''09:00''"
    "end_time sch = ''17:00''" "slot_duration sch = 60"
    and "sl \<in> set (generate sch from to)"
  shows "iso_weekday (slot_start sl div 1440) \<in> {1, 2, 3, 4, 5}"
proof -
  have start: "clock_minutes (start_time sch) = 540"
    using assms(2) by (simp add: clock_minutes_def digit_value_def)
  from assms(5) obtain d where d: "iso_weekday d \<in> {1, 2, 3, 4, 5}"
    and sl: "sl \<in> set (day_slots sch d 540)"
    unfolding generate_def start assms(1) by (auto split: if_splits)
  from sl have "slot_start sl div 1440 = d"
    unfolding day_slots_work_day[OF assms(3,4)] by (auto simp: make_slot_def)
  with d show ?thesis by simp
qed


section \<open>The claims\<close>



text \<open>
  Claim C2, as the specification states it, fails: the failure of one calendar is
  recorded nowhere. With three calendars, the state after the second calendar has failed
  (its data is not an array, or its call rejects) is the state after it has answered with
  an empty array.
\<close>

theorem remote_failure_not_recorded_counterexample:
  "run ex_env
     (map (Settled 0) [EventData (Some [ex_event 5]), EventData None, EventData (Some [ex_event 7])])
     (getRemoteEvents ex_env (ex_day 2024 2 1) (ex_day 2024 2 29) ex_state3)
   = run ex_env
     (map (Settled 0) [EventData (Some [ex_event 5]), EventData (Some []), EventData (Some [ex_event 7])])
     (getRemoteEvents ex_env (ex_day 2024 2 1) (ex_day 2024 2 29) ex_state3)
   \<and> run ex_env
     (map (Settled 0) [EventData (Some [ex_event 5]), Rejected, EventData (Some [ex_event 7])])
     (getRemoteEvents ex_env (ex_day 2024 2 1) (ex_day 2024 2 29) ex_state3)
   = run ex_env
     (map (Settled 0) [EventData (Some [ex_event 5]), EventData (Some []), EventData (Some [ex_event 7])])
     (getRemoteEvents ex_env (ex_day 2024 2 1) (ex_day 2024 2 29) ex_state3)"
  by (simp add: run_def settle_def remote_events_received_def getRemoteEvents_def Let_def
      ex_state3_def init_state_def)

text \<open>
  Claim C2, amended. Take any state and any awaited remote call, at whatever position
  among the awaited calls. When its fetch fails, by data that is not an array or by
  rejection, the state changes in one respect only: the call is no longer awaited. The
  event list is as it was, every other call is still awaited and adds its events when it
  settles, and the failure leaves no trace: the state is the one that an empty array
  produces. When the fetch answers with an array, its events are appended and nothing else
  changes.
\<close>

theorem remote_failure_isolated:
  "k < length (inflight s) \<and> fst (inflight s ! k) = RemoteEvents c f t \<longrightarrow>
     settle e k (EventData None) s =
       s\<lparr>inflight := take k (inflight s) @ drop (Suc k) (inflight s)\<rparr>
     \<and> settle e k Rejected s =
       s\<lparr>inflight := take k (inflight s) @ drop (Suc k) (inflight s)\<rparr>
     \<and> settle e k (EventData (Some [])) s =
       s\<lparr>inflight := take k (inflight s) @ drop (Suc k) (inflight s)\<rparr>
     \<and> settle e k (EventData (Some evs)) s =
       s\<lparr>calendarEvents := calendarEvents s @ map with_duration evs,
         inflight := take k (inflight s) @ drop (Suc k) (inflight s)\<rparr>"
proof (intro impI, elim conjE)
  assume k: "k < length (inflight s)" and req: "fst (inflight s ! k) = RemoteEvents c f t"
  define rest where "rest = take k (inflight s) @ drop (Suc k) (inflight s)"
  have none: "settle e k (EventData None) s = s\<lparr>inflight := rest\<rparr>"
    using k req by (simp add: settle_def Let_def remote_events_received_def rest_def)
  have rejected: "settle e k Rejected s = s\<lparr>inflight := rest\<rparr>"
    using k req by (simp add: settle_def Let_def rest_def)
  have some: "settle e k (EventData (Some xs)) s =
      s\<lparr>calendarEvents := calendarEvents s @ map with_duration xs, inflight := rest\<rparr>" for xs
    using k req
    by (cases s) (simp add: settle_def Let_def remote_events_received_def rest_def)
  have empty: "settle e k (EventData (Some [])) s = s\<lparr>inflight := rest\<rparr>"
    unfolding some by (cases s) simp
  from none rejected empty some[of evs]
  show "settle e k (EventData None) s =
       s\<lparr>inflight := take k (inflight s) @ drop (Suc k) (inflight s)\<rparr>
     \<and> settle e k Rejected s =
       s\<lparr>inflight := take k (inflight s) @ drop (Suc k) (inflight s)\<rparr>
     \<and> settle e k (EventData (Some [])) s =
       s\<lparr>inflight := take k (inflight s) @ drop (Suc k) (inflight s)\<rparr>
     \<and> settle e k (EventData (Some evs)) s =
       s\<lparr>calendarEvents := calendarEvents s @ map with_duration evs,
         inflight := take k (inflight s) @ drop (Suc k) (inflight s)\<rparr>"
    unfolding rest_def by blast
qed

text \<open>
  C2 amended, on three calendars: the call of the second calendar fails while the calls
  of the first and the third are awaited and the event list holds an earlier event. The
  list keeps that event, and the other two calls stay awaited.
\<close>

theorem remote_failure_isolated_witness:
  "fst (inflight ((getRemoteEvents ex_env (ex_day 2024 2 1) (ex_day 2024 2 29) ex_state3)
                    \<lparr>calendarEvents := [with_duration (ex_event 5)]\<rparr>) ! 1)
     = RemoteEvents 2 (ex_day 2024 2 1) (ex_day 2024 3 1)
   \<and> calendarEvents
       (settle ex_env 1 (EventData None)
          ((getRemoteEvents ex_env (ex_day 2024 2 1) (ex_day 2024 2 29) ex_state3)
             \<lparr>calendarEvents := [with_duration (ex_event 5)]\<rparr>))
     = [with_duration (ex_event 5)]
   \<and> inflight
       (settle ex_env 1 (EventData None)
          ((getRemoteEvents ex_env (ex_day 2024 2 1) (ex_day 2024 2 29) ex_state3)
             \<lparr>calendarEvents := [with_duration (ex_event 5)]\<rparr>))
     = [(RemoteEvents 1 (ex_day 2024 2 1) (ex_day 2024 3 1), False),
        (RemoteEvents 3 (ex_day 2024 2 1) (ex_day 2024 3 1), False)]
   \<and> settle ex_env 1 Rejected
          ((getRemoteEvents ex_env (ex_day 2024 2 1) (ex_day 2024 2 29) ex_state3)
             \<lparr>calendarEvents := [with_duration (ex_event 5)]\<rparr>)
     = settle ex_env 1 (EventData (Some []))
          ((getRemoteEvents ex_env (ex_day 2024 2 1) (ex_day 2024 2 29) ex_state3)
             \<lparr>calendarEvents := [with_duration (ex_event 5)]\<rparr>)"
  using remote_failure_isolated
    [of 1 "(getRemoteEvents ex_env (ex_day 2024 2 1) (ex_day 2024 2 29) ex_state3)
             \<lparr>calendarEvents := [with_duration (ex_event 5)]\<rparr>"
        2 "ex_day 2024 2 1" "ex_day 2024 3 1" ex_env "[]"]
  by (simp add: getRemoteEvents_fields ex_state3_def init_state_def ex_calendar_def ex_day_def
      next_day_def days_in_month_def leap_year_def)

text \<open>
  Claim C3, as the specification states it, fails: nothing cancels a superseded fetch.
  After a navigation to February and, before its call has settled, a navigation to March,
  the call of February is still awaited, and when it settles its event enters
  \<open>calendarEvents\<close>.
\<close>

theorem superseded_fetch_updates_events_counterexample:
  "inflight
     (run ex_env
        [DateChange (ex_month_start 2) (ex_month_end 2),
         DateChange (ex_month_start 3) (ex_month_end 3)]
        ex_state1)
   = [(RemoteEvents 1 (ex_day 2024 2 1) (ex_day 2024 3 1), False),
      (RemoteEvents 1 (ex_day 2024 3 1) (ex_day 2024 4 1), False)]
   \<and> calendarEvents
     (run ex_env
        [DateChange (ex_month_start 2) (ex_month_end 2),
         DateChange (ex_month_start 3) (ex_month_end 3),
         Settled 0 (EventData (Some [ex_event 5]))]
        ex_state1)
   = [with_duration (ex_event 5)]"
  by (simp add: run_def onDateChange_def getRemoteEvents_fields getRemoteEvents_def Let_def
      settle_def remote_events_received_def ex_state1_def init_state_def ex_calendar_def
      ex_now_def ex_month_start_def ex_month_end_def ex_day_def format_YYYYMM_def format_YYYY_MM_DD_def
      startOf_month_def endOf_month_def add_1_day_def dj_parse_date_def next_day_def
      days_in_month_def leap_year_def)

text \<open>
  Claim C3, amended. Starting a fetch empties the event list and appends its own calls to
  the awaited ones, every call of an earlier query staying awaited; and when any awaited
  remote call settles with an array, whichever query issued it, its events are appended
  to the event list.
\<close>

theorem superseded_fetch_not_cancelled:
  "inflight (getRemoteEvents e from to s) =
     inflight s
     @ map (\<lambda>c. (RemoteEvents (cal_id c) from (next_day to), False)) (connectedCalendars s)
   \<and> calendarEvents (getRemoteEvents e from to s) = []
   \<and> (k < length (inflight s) \<and> fst (inflight s ! k) = RemoteEvents c f t \<longrightarrow>
        calendarEvents (settle e k (EventData (Some evs)) s) =
          calendarEvents s @ map with_duration evs)"
  by (simp add: getRemoteEvents_fields settle_remote remote_events_received_fields)

text \<open>C3 amended, on the call of February settling after the navigation to March.\<close>

theorem superseded_fetch_not_cancelled_witness:
  "0 < length (inflight (getRemoteEvents ex_env (ex_day 2024 3 1) (ex_day 2024 3 31)
                 (getRemoteEvents ex_env (ex_day 2024 2 1) (ex_day 2024 2 29) ex_state1)))
   \<and> fst (inflight (getRemoteEvents ex_env (ex_day 2024 3 1) (ex_day 2024 3 31)
                 (getRemoteEvents ex_env (ex_day 2024 2 1) (ex_day 2024 2 29) ex_state1)) ! 0)
       = RemoteEvents 1 (ex_day 2024 2 1) (ex_day 2024 3 1)
   \<and> calendarEvents
       (settle ex_env 0 (EventData (Some [ex_event 5]))
          (getRemoteEvents ex_env (ex_day 2024 3 1) (ex_day 2024 3 31)
             (getRemoteEvents ex_env (ex_day 2024 2 1) (ex_day 2024 2 29) ex_state1)))
     = [with_duration (ex_event 5)]"
  using superseded_fetch_not_cancelled
    [of ex_env "ex_day 2024 3 1" "ex_day 2024 3 31"
        "getRemoteEvents ex_env (ex_day 2024 3 1) (ex_day 2024 3 31)
           (getRemoteEvents ex_env (ex_day 2024 2 1) (ex_day 2024 2 29) ex_state1)"
        0 1 "ex_day 2024 2 1" "ex_day 2024 3 1" "[ex_event 5]"]
  by (simp add: getRemoteEvents_fields ex_state1_def init_state_def ex_calendar_def
      ex_day_def next_day_def days_in_month_def leap_year_def)

text \<open>
  Claim C4, as the specification states it, fails: with an inactive schedule in front of
  an active one, \<open>firstSchedule\<close> is the inactive one.
\<close>

theorem firstSchedule_inactive_counterexample:
  "firstSchedule
     (ex_state1\<lparr>schedules := Some [placeholder_schedule ex_env ex_now, ex_work_schedule]\<rparr>)
   = Some (placeholder_schedule ex_env ex_now)
   \<and> \<not> active (placeholder_schedule ex_env ex_now)
   \<and> active ex_work_schedule"
  by (simp add: firstSchedule_def ex_work_schedule_def placeholder_schedule_def)

text \<open>
  Claim C4, amended. \<open>firstSchedule\<close> is the first schedule of the list that the schedule
  call returned, whatever its \<open>active\<close> flag, and it is \<open>null\<close> when the list is empty or
  missing.
\<close>

theorem firstSchedule_is_first_of_list:
  "(schedules s = Some (x # rest) \<longrightarrow> firstSchedule s = Some x)
   \<and> (schedules s = Some [] \<or> schedules s = None \<longrightarrow> firstSchedule s = None)"
  by (auto simp: firstSchedule_def)

text \<open>C4 amended, on a list of two schedules and on the empty list.\<close>

theorem firstSchedule_is_first_of_list_witness:
  "schedules (ex_state1\<lparr>schedules := Some [ex_work_schedule, placeholder_schedule ex_env ex_now]\<rparr>)
     = Some (ex_work_schedule # [placeholder_schedule ex_env ex_now])
   \<and> firstSchedule
       (ex_state1\<lparr>schedules := Some [ex_work_schedule, placeholder_schedule ex_env ex_now]\<rparr>)
     = Some ex_work_schedule
   \<and> schedules ex_state1 = Some []
   \<and> firstSchedule ex_state1 = None"
  using firstSchedule_is_first_of_list
    [of "ex_state1\<lparr>schedules := Some [ex_work_schedule, placeholder_schedule ex_env ex_now]\<rparr>"
        ex_work_schedule "[placeholder_schedule ex_env ex_now]"]
    firstSchedule_is_first_of_list [of ex_state1]
  by (simp add: ex_state1_def init_state_def)

text \<open>
  Claim C5. For a schedule with the weekdays 1 to 5, the daily window 09:00 to 17:00 and
  slots of 60 minutes, \<open>generate\<close> over seven consecutive days yields 40 slots, and no
  slot lies on a Saturday or a Sunday. Seven consecutive days always hold a weekend day.
\<close>

theorem generate_work_week:
  assumes "set (weekdays sch) = {1, 2, 3, 4, 5}"
    and "start_time sch = ''09:00''"
    and "end_time sch = ''17:00''"
    and "slot_duration sch = 60"
  shows "length (generate sch n (n + 7)) = 40
         \<and> (\<forall>sl \<in> set (generate sch n (n + 7)).
               iso_weekday (slot_start sl div 1440) \<noteq> 6
               \<and> iso_weekday (slot_start sl div 1440) \<noteq> 7)
         \<and> (\<exists>d \<in> set [n..n + 7 - 1]. iso_weekday d = 6)"
proof -
  have "iso_weekday (slot_start sl div 1440) \<noteq> 6 \<and> iso_weekday (slot_start sl div 1440) \<noteq> 7"
    if "sl \<in> set (generate sch n (n + 7))" for sl
    using generate_weekday[OF assms that] by auto
  moreover have "\<exists>d \<in> set [n..n + 7 - 1]. iso_weekday d = 6"
  proof -
    define r where "r = (n + 3) mod 7"
    have r: "r = 0 \<or> r = 1 \<or> r = 2 \<or> r = 3 \<or> r = 4 \<or> r = 5 \<or> r = 6"
      by (rule residue_cases) (simp_all add: r_def)
    have w: "iso_weekday (n + i) = (r + i) mod 7 + 1" for i
      by (simp add: weekday_shift r_def)
    define i where "i = (if r \<le> 5 then 5 - r else 6)"
    have "iso_weekday (n + i) = 6"
      unfolding w i_def using r by (elim disjE) simp_all
    moreover have "n + i \<in> set [n..n + 7 - 1]"
      unfolding i_def using r by auto
    ultimately show ?thesis by blast
  qed
  ultimately show ?thesis
    using generate_week_length[OF assms] by blast
qed

text \<open>C5 on the week from Monday 2024-01-01 (day number 19723).\<close>

theorem generate_work_week_witness:
  "set (weekdays ex_work_schedule) = {1, 2, 3, 4, 5}
   \<and> start_time ex_work_schedule = ''09:00''
   \<and> end_time ex_work_schedule = ''17:00''
   \<and> slot_duration ex_work_schedule = 60
   \<and> length (generate ex_work_schedule 19723 (19723 + 7)) = 40"
  using generate_work_week [of ex_work_schedule 19723]
  by (simp add: ex_work_schedule_def placeholder_schedule_def)

text \<open>
  Claim C6. \<open>merge\<close> is idempotent, and its result is sorted by start and pairwise
  non-overlapping.
\<close>

theorem merge_idempotent_sorted_disjoint:
  "merge (merge xs) = merge xs
   \<and> sorted (map istart (merge xs))
   \<and> sorted_wrt (\<lambda>a b. \<not> overlaps a b \<and> \<not> overlaps b a) (merge xs)"
proof -
  have sep: "sorted_wrt (\<lambda>a b. istart a \<le> istart b \<and> iend a < istart b) (merge xs)"
    by (rule merge_separated)
  have srt: "sorted (map istart (merge xs))"
    using sep by (rule separated_sorted)
  have "merge (merge xs) = coalesce (merge xs)"
    using srt by (simp add: merge_def[of "merge xs"] sort_key_id_if_sorted)
  also have "\<dots> = merge xs"
    using sep by (rule coalesce_fixed)
  finally have idem: "merge (merge xs) = merge xs" .
  have dis: "sorted_wrt (\<lambda>a b. \<not> overlaps a b \<and> \<not> overlaps b a) (merge xs)"
    using sep by (rule sorted_wrt_mono_rel[rotated]) (auto simp: overlaps_def)
  from idem srt dis show ?thesis by blast
qed

text \<open>C6 on four intervals given out of order, two pairs of which touch or overlap.\<close>

theorem merge_idempotent_sorted_disjoint_witness:
  "merge [\<lparr>istart = 5, iend = 9\<rparr>, \<lparr>istart = 1, iend = 3\<rparr>,
          \<lparr>istart = 3, iend = 4\<rparr>, \<lparr>istart = 8, iend = 12\<rparr>]
     = [\<lparr>istart = 1, iend = 4\<rparr>, \<lparr>istart = 5, iend = 12\<rparr>]
   \<and> merge (merge [\<lparr>istart = 5, iend = 9\<rparr>, \<lparr>istart = 1, iend = 3\<rparr>,
                   \<lparr>istart = 3, iend = 4\<rparr>, \<lparr>istart = 8, iend = 12\<rparr>])
     = [\<lparr>istart = 1, iend = 4\<rparr>, \<lparr>istart = 5, iend = 12\<rparr>]"
  using merge_idempotent_sorted_disjoint
    [of "[\<lparr>istart = 5, iend = 9\<rparr>, \<lparr>istart = 1, iend = 3\<rparr>,
          \<lparr>istart = 3, iend = 4\<rparr>, \<lparr>istart = 8, iend = 12\<rparr>]"]
  by (simp add: merge_def)

text \<open>
  Claim C7. \<open>allowedRange\<close> is the interval from \<open>now + earliest_booking\<close> to
  \<open>now + farthest_booking\<close> clipped to the validity range of the schedule; when the
  clipped window is empty or inverted the result is an empty interval, not a failure;
  the result never starts before \<open>now + earliest_booking\<close>, and neither does a slot of
  the grid clipped to it.
\<close>

theorem allowedRange_window:
  "(let w = allowedRange sch now;
        lo = max (now + earliest_booking sch) (date_minutes (start_date sch));
        hi = (case end_date sch of
                None \<Rightarrow> now + farthest_booking sch
              | Some e \<Rightarrow> min (now + farthest_booking sch) (date_minutes e))
    in (lo < hi \<longrightarrow> w = \<lparr>istart = lo, iend = hi\<rparr>)
     \<and> (\<not> lo < hi \<longrightarrow> istart w = iend w)
     \<and> istart w \<le> iend w
     \<and> now + earliest_booking sch \<le> istart w
     \<and> (\<forall>sl \<in> set (clip_to_window w slots). now + earliest_booking sch \<le> slot_start sl))"
  by (auto simp: allowedRange_def clip_to_window_def Let_def split: option.splits)

text \<open>
  C7 on the example of the specification: with \<open>earliest_booking = 1440\<close> and \<open>now\<close> at
  2024-01-01T12:00 (minute 28401840) the window starts at 2024-01-02T12:00 (minute
  28403280), and of two slots only the one after that instant stays.
\<close>

theorem allowedRange_window_witness:
  "allowedRange (ex_work_schedule\<lparr>start_date := ex_day 2023 12 1\<rparr>) 28401840
     = \<lparr>istart = 28403280, iend = 28422000\<rparr>
   \<and> clip_to_window (allowedRange (ex_work_schedule\<lparr>start_date := ex_day 2023 12 1\<rparr>) 28401840)
        [make_slot ex_work_schedule 19724 540, make_slot ex_work_schedule 19724 780]
     = [make_slot ex_work_schedule 19724 780]
   \<and> 28401840 + earliest_booking (ex_work_schedule\<lparr>start_date := ex_day 2023 12 1\<rparr>)
       \<le> slot_start (make_slot ex_work_schedule 19724 780)"
  using allowedRange_window
    [of "ex_work_schedule\<lparr>start_date := ex_day 2023 12 1\<rparr>" 28401840
        "[make_slot ex_work_schedule 19724 540, make_slot ex_work_schedule 19724 780]"]
  by (simp add: Let_def allowedRange_def clip_to_window_def make_slot_def ex_work_schedule_def
      placeholder_schedule_def ex_day_def date_minutes_def days_from_civil_def)

text \<open>
  Claim C8. \<open>activeDateRange\<close> is assigned when the refs are set up and no later step
  changes it. So the check in \<open>onDateChange\<close> compares the new range with the month of
  the initial \<open>activeDate\<close>, and a navigation to a range inside that month issues no call
  and leaves the event list as it is.
\<close>

theorem activeDateRange_assigned_once:
  assumes "a0 = (case route_date of Some d \<Rightarrow> d | None \<Rightarrow> now)"
    and "s = run e acts (init_state e route_date now cals)"
  shows "activeDateRange s = (startOf_month (time_zone e) a0, endOf_month (time_zone e) a0)
     \<and> activeDateRange (step e a s') = activeDateRange s'
     \<and> onDateChange e start end' s =
         (let s1 = s\<lparr>activeDate := add_ms (time_zone e) start (diff_minutes end' start * 60000 div 2)\<rparr>
          in if format_YYYYMM end' \<noteq> format_YYYYMM a0 \<or> format_YYYYMM start \<noteq> format_YYYYMM a0
             then getRemoteEvents e (format_YYYY_MM_DD start) (format_YYYY_MM_DD end') s1
             else s1)
     \<and> (format_YYYYMM start = format_YYYYMM a0 \<and> format_YYYYMM end' = format_YYYYMM a0 \<longrightarrow>
          issued (onDateChange e start end' s) = issued s
          \<and> inflight (onDateChange e start end' s) = inflight s
          \<and> calendarEvents (onDateChange e start end' s) = calendarEvents s)"
proof -
  have range: "activeDateRange s = (startOf_month (time_zone e) a0, endOf_month (time_zone e) a0)"
    unfolding assms run_range by (simp add: init_state_def Let_def)
  have months: "format_YYYYMM (startOf_month (time_zone e) a0) = format_YYYYMM a0"
    "format_YYYYMM (endOf_month (time_zone e) a0) = format_YYYYMM a0"
    by (simp_all add: format_YYYYMM_def startOf_month_def endOf_month_def Let_def)
  have change: "onDateChange e start end' s =
         (let s1 = s\<lparr>activeDate := add_ms (time_zone e) start (diff_minutes end' start * 60000 div 2)\<rparr>
          in if format_YYYYMM end' \<noteq> format_YYYYMM a0 \<or> format_YYYYMM start \<noteq> format_YYYYMM a0
             then getRemoteEvents e (format_YYYY_MM_DD start) (format_YYYY_MM_DD end') s1
             else s1)"
    unfolding onDateChange_def Let_def by (simp add: range months eq_commute)
  have stay: "format_YYYYMM start = format_YYYYMM a0 \<and> format_YYYYMM end' = format_YYYYMM a0 \<longrightarrow>
          issued (onDateChange e start end' s) = issued s
          \<and> inflight (onDateChange e start end' s) = inflight s
          \<and> calendarEvents (onDateChange e start end' s) = calendarEvents s"
    unfolding change Let_def by simp
  have keep: "activeDateRange (step e a s') = activeDateRange s'"
    by (rule step_range)
  show ?thesis
    by (intro conjI range keep change stay)
qed

text \<open>
  C8 on a component set up in January 2024: after a navigation to February, which issues
  a call, the navigation back to January issues none.
\<close>

theorem activeDateRange_assigned_once_witness:
  "format_YYYYMM (ex_month_start 1) = format_YYYYMM ex_now
   \<and> format_YYYYMM (ex_month_end 1) = format_YYYYMM ex_now
   \<and> issued (run ex_env [DateChange (ex_month_start 2) (ex_month_end 2)] ex_state1)
       = [RemoteEvents 1 (ex_day 2024 2 1) (ex_day 2024 3 1)]
   \<and> issued (onDateChange ex_env (ex_month_start 1) (ex_month_end 1)
               (run ex_env [DateChange (ex_month_start 2) (ex_month_end 2)] ex_state1))
       = [RemoteEvents 1 (ex_day 2024 2 1) (ex_day 2024 3 1)]"
  using activeDateRange_assigned_once
    [where route_date = None and now = ex_now and e = ex_env and cals = "[ex_calendar 1]"
       and acts = "[DateChange (ex_month_start 2) (ex_month_end 2)]"
       and start = "ex_month_start 1" and end' = "ex_month_end 1", OF refl refl]
  by (simp add: run_def onDateChange_def getRemoteEvents_fields Let_def
      ex_state1_def init_state_def ex_calendar_def ex_now_def
      ex_month_start_def ex_month_end_def ex_day_def format_YYYYMM_def format_YYYY_MM_DD_def
      startOf_month_def endOf_month_def next_day_def days_in_month_def leap_year_def)

text \<open>
  Claim C9. Every event in \<open>calendarEvents\<close>, in every state the component reaches,
  carries as \<open>duration\<close> the difference between the instant of its end and the instant of
  its start in minutes, the fraction cut off towards zero; and the events that a settled
  call stores are the events of the response with \<open>duration\<close> set so and every other
  field as it was. The instant of a value is counted from 1970-01-01T00:00 UTC: a day
  later in the calendar is 86400000 milliseconds more, a millisecond of wall-clock time
  is one more, and a millisecond of offset east is one less.
\<close>

theorem remote_events_carry_duration:
  "(\<forall>ev \<in> set (calendarEvents (run e acts (init_state e route_date now cals))).
       \<exists>d. duration ev = Some d
          \<and> (valueOf (ev_start ev) \<le> valueOf (ev_end ev) \<longrightarrow>
               60000 * d \<le> valueOf (ev_end ev) - valueOf (ev_start ev)
               \<and> valueOf (ev_end ev) - valueOf (ev_start ev) < 60000 * d + 60000)
          \<and> (valueOf (ev_end ev) < valueOf (ev_start ev) \<longrightarrow>
               60000 * d - 60000 < valueOf (ev_end ev) - valueOf (ev_start ev)
               \<and> valueOf (ev_end ev) - valueOf (ev_start ev) \<le> 60000 * d))
   \<and> (k < length (inflight s) \<and> fst (inflight s ! k) = RemoteEvents c f t \<longrightarrow>
        calendarEvents (settle e' k (EventData (Some evs)) s) =
          calendarEvents s
          @ map (\<lambda>ev. ev\<lparr>duration := Some (diff_minutes (ev_end ev) (ev_start ev))\<rparr>) evs)
   \<and> (valueOf b \<le> valueOf a \<longrightarrow>
        60000 * diff_minutes a b \<le> valueOf a - valueOf b
        \<and> valueOf a - valueOf b < 60000 * diff_minutes a b + 60000)
   \<and> (valueOf a < valueOf b \<longrightarrow>
        60000 * diff_minutes a b - 60000 < valueOf a - valueOf b
        \<and> valueOf a - valueOf b \<le> 60000 * diff_minutes a b)
   \<and> valueOf \<lparr>dj_date = \<lparr>year = 1970, month = 1, day = 1\<rparr>, dj_ms = 0, dj_offset = 0\<rparr> = 0
   \<and> valueOf (x\<lparr>dj_ms := ms\<rparr>) = valueOf x - dj_ms x + ms
   \<and> valueOf (x\<lparr>dj_offset := off\<rparr>) = valueOf x + dj_offset x - off
   \<and> (valid_date (dj_date x) \<longrightarrow>
        valueOf (x\<lparr>dj_date := next_day (dj_date x)\<rparr>) = valueOf x + 86400000)"
proof -
  have upper: "valueOf b \<le> valueOf a \<longrightarrow>
        60000 * diff_minutes a b \<le> valueOf a - valueOf b
        \<and> valueOf a - valueOf b < 60000 * diff_minutes a b + 60000" for a b
    by (auto simp: diff_minutes_def Let_def)
  have lower: "valueOf a < valueOf b \<longrightarrow>
        60000 * diff_minutes a b - 60000 < valueOf a - valueOf b
        \<and> valueOf a - valueOf b \<le> 60000 * diff_minutes a b" for a b
    by (auto simp: diff_minutes_def Let_def)
  have "list_all has_duration (calendarEvents (run e acts (init_state e route_date now cals)))"
    by (rule run_events) (simp add: init_state_def Let_def)
  then have inv: "\<forall>ev \<in> set (calendarEvents (run e acts (init_state e route_date now cals))).
       \<exists>d. duration ev = Some d
          \<and> (valueOf (ev_start ev) \<le> valueOf (ev_end ev) \<longrightarrow>
               60000 * d \<le> valueOf (ev_end ev) - valueOf (ev_start ev)
               \<and> valueOf (ev_end ev) - valueOf (ev_start ev) < 60000 * d + 60000)
          \<and> (valueOf (ev_end ev) < valueOf (ev_start ev) \<longrightarrow>
               60000 * d - 60000 < valueOf (ev_end ev) - valueOf (ev_start ev)
               \<and> valueOf (ev_end ev) - valueOf (ev_start ev) \<le> 60000 * d)"
    using upper lower by (simp add: list_all_iff has_duration_def)
  have "map with_duration evs =
      map (\<lambda>ev. ev\<lparr>duration := Some (diff_minutes (ev_end ev) (ev_start ev))\<rparr>) evs"
    by (simp add: with_duration_def)
  then have stored: "k < length (inflight s) \<and> fst (inflight s ! k) = RemoteEvents c f t \<longrightarrow>
        calendarEvents (settle e' k (EventData (Some evs)) s) =
          calendarEvents s
          @ map (\<lambda>ev. ev\<lparr>duration := Some (diff_minutes (ev_end ev) (ev_start ev))\<rparr>) evs"
    by (simp add: settle_remote remote_events_received_fields)
  have epoch: "valueOf \<lparr>dj_date = \<lparr>year = 1970, month = 1, day = 1\<rparr>, dj_ms = 0, dj_offset = 0\<rparr> = 0"
    by (simp add: valueOf_def days_from_civil_def Let_def)
  have ms: "valueOf (x\<lparr>dj_ms := ms\<rparr>) = valueOf x - dj_ms x + ms"
    and off: "valueOf (x\<lparr>dj_offset := off\<rparr>) = valueOf x + dj_offset x - off"
    by (simp_all add: valueOf_def)
  have day: "valid_date (dj_date x) \<longrightarrow>
        valueOf (x\<lparr>dj_date := next_day (dj_date x)\<rparr>) = valueOf x + 86400000"
    by (simp add: valueOf_def next_day_one_later algebra_simps)
  show ?thesis
    by (intro conjI inv stored upper lower epoch ms off day)
qed

text \<open>
  C9 on two events: one from 09:00 to 10:30 is stored with a duration of 90 minutes; one
  from 01:00 to 04:00 across the change to summer time, where the clock skips an hour, is
  stored with a duration of 120 minutes.
\<close>

theorem remote_events_carry_duration_witness:
  "0 < length (inflight (getRemoteEvents ex_env (ex_day 2024 2 1) (ex_day 2024 2 29) ex_state1))
   \<and> fst (inflight (getRemoteEvents ex_env (ex_day 2024 2 1) (ex_day 2024 2 29) ex_state1) ! 0)
       = RemoteEvents 1 (ex_day 2024 2 1) (ex_day 2024 3 1)
   \<and> calendarEvents
       (settle ex_env 0 (EventData (Some [ex_event 5, ex_dst_event]))
          (getRemoteEvents ex_env (ex_day 2024 2 1) (ex_day 2024 2 29) ex_state1))
     = [(ex_event 5)\<lparr>duration := Some 90\<rparr>, ex_dst_event\<lparr>duration := Some 120\<rparr>]
   \<and> valueOf (ev_start ex_dst_event) \<le> valueOf (ev_end ex_dst_event)
   \<and> valueOf (ev_end ex_dst_event) - valueOf (ev_start ex_dst_event) = 60000 * 120
   \<and> valid_date (ex_day 2024 2 29)
   \<and> valueOf \<lparr>dj_date = ex_day 2024 3 1, dj_ms = 0, dj_offset = 0\<rparr>
       = valueOf \<lparr>dj_date = ex_day 2024 2 29, dj_ms = 0, dj_offset = 0\<rparr> + 86400000"
  using remote_events_carry_duration
    [where k = 0
       and s = "getRemoteEvents ex_env (ex_day 2024 2 1) (ex_day 2024 2 29) ex_state1"
       and c = 1 and f = "ex_day 2024 2 1" and t = "ex_day 2024 3 1" and e' = ex_env
       and evs = "[ex_event 5, ex_dst_event]"
       and a = "ev_end ex_dst_event" and b = "ev_start ex_dst_event"
       and x = "\<lparr>dj_date = ex_day 2024 2 29, dj_ms = 0, dj_offset = 0\<rparr>",
     THEN conjunct2]
  by (simp add: getRemoteEvents_fields ex_state1_def init_state_def ex_calendar_def ex_day_def
      next_day_def days_in_month_def leap_year_def ex_event_def ex_dst_event_def
      diff_minutes_def valueOf_def days_from_civil_def valid_date_def Let_def)

text \<open>
  Claim C10. Mounted on the route \<open>setup\<close>, the handler issues no call: it stores the one
  placeholder schedule, which is inactive and has the weekdays 1 to 5, the window 09:00 to
  17:00, \<open>earliest_booking\<close> 1440, \<open>farthest_booking\<close> 20160 and \<open>booking_confirmation\<close>
  true, sets \<open>schedulesReady\<close>, and returns with nothing awaited.
\<close>

theorem onMounted_setup_route:
  assumes "route_name e = ''setup''"
  shows "(let s' = step e (Mounted now) s; ph = placeholder_schedule e now
          in issued s' = issued s
           \<and> inflight s' = inflight s
           \<and> calendarEvents s' = calendarEvents s
           \<and> schedules s' = Some [ph]
           \<and> schedulesReady s'
           \<and> \<not> active ph
           \<and> weekdays ph = [1, 2, 3, 4, 5]
           \<and> start_time ph = ''09:00''
           \<and> end_time ph = ''17:00''
           \<and> earliest_booking ph = 1440
           \<and> farthest_booking ph = 20160
           \<and> booking_confirmation ph)"
  using assms by (simp add: onMounted_def placeholder_schedule_def Let_def)

text \<open>C10 on a fresh component on the route \<open>setup\<close>.\<close>

theorem onMounted_setup_route_witness:
  "route_name ex_setup_env = ''setup''
   \<and> issued (step ex_setup_env (Mounted ex_now) ex_state3) = []
   \<and> inflight (step ex_setup_env (Mounted ex_now) ex_state3) = []
   \<and> schedules (step ex_setup_env (Mounted ex_now) ex_state3)
       = Some [placeholder_schedule ex_setup_env ex_now]
   \<and> schedulesReady (step ex_setup_env (Mounted ex_now) ex_state3)"
  using onMounted_setup_route [of ex_setup_env ex_now ex_state3]
  by (simp add: Let_def ex_setup_env_def ex_state3_def init_state_def)

end
